theory Spec2Isabelle
  imports Main "HOL-Library.AList"
begin

section \<open>The form state engine of \<open>useForm\<close>\<close>

text \<open>
  The hook \<open>useForm\<close> of \<open>src/useForm.ts\<close> keeps three pieces of React state
  (\<open>values\<close>, \<open>errors\<close>, \<open>touched\<close>) and returns callbacks that queue updates of them.
  A JavaScript object is modelled as an association list: its own keys in insertion
  order, each with its value. Reading a property is \<open>map_of\<close> (a missing property reads
  \<open>undefined\<close>, here \<open>None\<close>), \<open>{...prev, [k]: v}\<close> and \<open>next[k] = v\<close> are
  \<open>AList.update\<close> (replace in place, or append a new key), \<open>delete next[k]\<close> is
  \<open>AList.delete\<close>, and \<open>k in prev\<close> is membership in the keys. Field values have the
  type \<open>unknown\<close> in the source, here a type variable. Field names are taken not to be
  names that every object inherits (\<open>toString\<close>, \<open>constructor\<close> and the like), nor
  array indices, which JavaScript lists before the other keys.

  A callback built in a render closes over that render's \<open>values\<close>: this snapshot is the
  parameter \<open>vals\<close> of the functions below, while the state the queued updaters are
  applied to is the parameter \<open>st\<close>. For a callback invoked on the state it was rendered
  from, \<open>vals = values_st st\<close>. The options object is the same in every render.
\<close>

subsection \<open>Data (\<open>src/types.ts\<close>)\<close>

type_synonym 'v obj = "(string \<times> 'v) list"

text \<open>\<open>ValidatorResult = string | null\<close>: \<open>None\<close> is \<open>null\<close>.\<close>

type_synonym ValidatorResult = "string option"

text \<open>A validator receives \<open>values[name]\<close> and the whole \<open>values\<close> object.\<close>

type_synonym 'v validator = "'v option \<Rightarrow> 'v obj \<Rightarrow> ValidatorResult"

text \<open>\<open>UseFormOptions\<close>: \<open>validators\<close> is optional, and so is each of its entries.\<close>

record 'v UseFormOptions =
  defaultValues :: "'v obj"
  validators :: "(string \<rightharpoonup> 'v validator) option"

text \<open>The three \<open>useState\<close> cells.\<close>

record 'v form_state =
  values_st :: "'v obj"
  errors :: "string obj"
  touched :: "bool obj"

text \<open>The state of the first render: \<open>useState(defaultValues)\<close>, \<open>useState({})\<close> twice.\<close>

definition init :: "'v UseFormOptions \<Rightarrow> 'v form_state" where
  "init options = \<lparr>values_st = defaultValues options, errors = [], touched = []\<rparr>"

text \<open>The own keys of an object, as a set.\<close>

definition keys :: "'a obj \<Rightarrow> string set" where
  "keys ob = fst ` set ob"

subsection \<open>Validation\<close>

text \<open>\<open>if (message)\<close>: \<open>null\<close> and the empty string are falsy, every other string is truthy.\<close>

definition truthy :: "ValidatorResult \<Rightarrow> bool" where
  "truthy message = (case message of None \<Rightarrow> False | Some m \<Rightarrow> m \<noteq> [])"

text \<open>
  \<open>validators?.[name]\<close>: the entry the \<open>validators\<close> object itself has for \<open>name\<close>.
  (At a name that every object inherits, such as \<open>toString\<close>, the source finds the
  inherited member instead; such names are outside what is modelled.)
\<close>

definition validator_for :: "'v UseFormOptions \<Rightarrow> string \<Rightarrow> 'v validator option" where
  "validator_for options name =
     (case validators options of None \<Rightarrow> None | Some vs \<Rightarrow> vs name)"

text \<open>
  \<open>validateField\<close> (lines 13 to 36) returns its boolean and the state after its
  \<open>setErrors\<close>. Without a validator the previous \<open>errors\<close> object is kept when it has
  no entry for \<open>name\<close>; with one, \<open>message\<close> is stored when truthy and the entry is
  deleted otherwise, and the result is \<open>message == null\<close>.
\<close>

definition validateField ::
  "'v UseFormOptions \<Rightarrow> 'v obj \<Rightarrow> string \<Rightarrow> 'v form_state \<Rightarrow> bool \<times> 'v form_state" where
  "validateField options vals name st =
     (case validator_for options name of
        None \<Rightarrow>
          (True,
           st\<lparr>errors := (if name \<notin> keys (errors st) then errors st
                          else AList.delete name (errors st))\<rparr>)
      | Some validate \<Rightarrow>
          (let message = validate (map_of vals name) vals
           in (message = None,
               st\<lparr>errors := (if truthy message
                              then AList.update name (the message) (errors st)
                              else AList.delete name (errors st))\<rparr>)))"

text \<open>
  The \<open>forEach\<close> of \<open>validateAll\<close> (lines 47 to 56) over \<open>Object.keys(values)\<close>, with
  its two mutable variables \<open>ok\<close> and \<open>nextErrors\<close> as the accumulator.
\<close>

fun validateAll_loop ::
  "(string \<rightharpoonup> 'v validator) \<Rightarrow> 'v obj \<Rightarrow> string list \<Rightarrow> bool \<times> string obj \<Rightarrow> bool \<times> string obj" where
  "validateAll_loop vs vals [] acc = acc"
| "validateAll_loop vs vals (key # rest) (ok, nextErrors) =
     (case vs key of
        None \<Rightarrow> validateAll_loop vs vals rest (ok, nextErrors)
      | Some validate \<Rightarrow>
          (let message = validate (map_of vals key) vals
           in if truthy message
              then validateAll_loop vs vals rest (False, AList.update key (the message) nextErrors)
              else validateAll_loop vs vals rest (ok, nextErrors)))"

text \<open>\<open>validateAll\<close> (lines 38 to 60).\<close>

definition validateAll ::
  "'v UseFormOptions \<Rightarrow> 'v obj \<Rightarrow> 'v form_state \<Rightarrow> bool \<times> 'v form_state" where
  "validateAll options vals st =
     (case validators options of
        None \<Rightarrow> (True, st\<lparr>errors := []\<rparr>)
      | Some vs \<Rightarrow>
          (let (ok, nextErrors) = validateAll_loop vs vals (map fst vals) (True, [])
           in (ok, st\<lparr>errors := nextErrors\<rparr>)))"

subsection \<open>Mutation, registration, reset and submission\<close>

text \<open>\<open>setValue\<close> (lines 62 to 64).\<close>

definition setValue :: "string \<Rightarrow> 'v \<Rightarrow> 'v form_state \<Rightarrow> 'v form_state" where
  "setValue name v st = st\<lparr>values_st := AList.update name v (values_st st)\<rparr>"

text \<open>
  \<open>register\<close> (lines 66 to 79) returns the binding object; its two callbacks are state
  transformers.
\<close>

record 'v RegisterReturn =
  reg_name :: string
  reg_value :: "'v option"
  onChange :: "'v \<Rightarrow> 'v form_state \<Rightarrow> 'v form_state"
  onBlur :: "'v form_state \<Rightarrow> 'v form_state"

definition register :: "'v UseFormOptions \<Rightarrow> 'v obj \<Rightarrow> string \<Rightarrow> 'v RegisterReturn" where
  "register options vals name =
     \<lparr>reg_name = name,
      reg_value = map_of vals name,
      onChange = (\<lambda>v. setValue name v),
      onBlur = (\<lambda>st. snd (validateField options vals name
                             (st\<lparr>touched := AList.update name True (touched st)\<rparr>)))\<rparr>"

text \<open>\<open>reset\<close> (lines 81 to 88); \<open>nextValues ?? defaultValues\<close>.\<close>

definition reset :: "'v UseFormOptions \<Rightarrow> 'v obj option \<Rightarrow> 'v form_state \<Rightarrow> 'v form_state" where
  "reset options nextValues st =
     st\<lparr>values_st := (case nextValues of None \<Rightarrow> defaultValues options | Some w \<Rightarrow> w),
        errors := [],
        touched := []\<rparr>"

text \<open>
  \<open>handleSubmit\<close> (lines 90 to 103). The world outside the engine, of any type
  \<open>'w\<close>, is threaded through the returned callback: \<open>onValid\<close> and the argument's
  \<open>preventDefault\<close> act on it. The argument \<open>e\<close> is absent, or a value without a
  \<open>preventDefault\<close> function, or one with it.
\<close>

datatype 'w submit_arg = NoArg | PlainArg | EventArg "'w \<Rightarrow> 'w"

definition handleSubmit ::
  "'v UseFormOptions \<Rightarrow> 'v obj \<Rightarrow> ('v obj \<Rightarrow> 'w \<Rightarrow> 'w) \<Rightarrow> 'w submit_arg
     \<Rightarrow> 'v form_state \<times> 'w \<Rightarrow> 'v form_state \<times> 'w" where
  "handleSubmit options vals onValid e =
     (\<lambda>(st, w).
        let w1 = (case e of EventArg preventDefault \<Rightarrow> preventDefault w | _ \<Rightarrow> w);
            (ok, st') = validateAll options vals st
        in if ok then (st', onValid vals w1) else (st', w1))"

text \<open>
  The object \<open>useForm\<close> returns (lines 105 to 115), as its properties in order: the three
  state objects and six callbacks.
\<close>

datatype 'v property =
  ValuesObject "'v obj" | ErrorsObject "string obj" | TouchedObject "bool obj" | Callback

definition useForm :: "'v form_state \<Rightarrow> 'v property obj" where
  "useForm st =
     [(''values'', ValuesObject (values_st st)),
      (''errors'', ErrorsObject (errors st)),
      (''touched'', TouchedObject (touched st)),
      (''register'', Callback),
      (''setValue'', Callback),
      (''validateField'', Callback),
      (''validateAll'', Callback),
      (''handleSubmit'', Callback),
      (''reset'', Callback)]"

subsection \<open>Sequences of operations\<close>

text \<open>
  One call into the engine, made through the callbacks of the current render, so that
  the snapshot they close over is the current \<open>values\<close>. \<open>Submit\<close> passes no argument
  and an \<open>onValid\<close> that leaves the form alone.
\<close>

datatype 'v operation =
  SetValue string 'v
  | ValidateField string
  | ValidateAll
  | Change string 'v
  | Blur string
  | Submit
  | Reset "'v obj option"

fun step :: "'v UseFormOptions \<Rightarrow> 'v operation \<Rightarrow> 'v form_state \<Rightarrow> 'v form_state" where
  "step options (SetValue name v) st = setValue name v st"
| "step options (ValidateField name) st = snd (validateField options (values_st st) name st)"
| "step options ValidateAll st = snd (validateAll options (values_st st) st)"
| "step options (Change name v) st = onChange (register options (values_st st) name) v st"
| "step options (Blur name) st = onBlur (register options (values_st st) name) st"
| "step options Submit st =
     fst (handleSubmit options (values_st st) (\<lambda>v w. w) NoArg (st, ()))"
| "step options (Reset nextValues) st = reset options nextValues st"

fun run :: "'v UseFormOptions \<Rightarrow> 'v operation list \<Rightarrow> 'v form_state \<Rightarrow> 'v form_state" where
  "run options [] st = st"
| "run options (op # ops) st = run options ops (step options op st)"

text \<open>The field names fixed at construction, and the invariant on the three key sets.\<close>

definition field_names :: "'v UseFormOptions \<Rightarrow> string set" where
  "field_names options = keys (defaultValues options)"

definition keys_invariant :: "'v UseFormOptions \<Rightarrow> 'v form_state \<Rightarrow> bool" where
  "keys_invariant options st =
     (keys (values_st st) = field_names options
      \<and> keys (errors st) \<subseteq> field_names options
      \<and> keys (touched st) \<subseteq> field_names options)"

text \<open>
  The calls that keep to the field set, as the types of the source demand: the name given
  to \<open>setValue\<close>, to \<open>validateField\<close>, to a change callback or to a blur callback is
  a field name (a \<open>keyof TValues\<close>), and the argument of \<open>reset\<close>, when there is one,
  has the field names as its keys (a \<open>TValues\<close>).
\<close>

fun well_typed :: "'v UseFormOptions \<Rightarrow> 'v operation \<Rightarrow> bool" where
  "well_typed options (SetValue name v) = (name \<in> field_names options)"
| "well_typed options (ValidateField name) = (name \<in> field_names options)"
| "well_typed options ValidateAll = True"
| "well_typed options (Change name v) = (name \<in> field_names options)"
| "well_typed options (Blur name) = (name \<in> field_names options)"
| "well_typed options Submit = True"
| "well_typed options (Reset nextValues) =
     (case nextValues of None \<Rightarrow> True | Some w \<Rightarrow> keys w = field_names options)"

text \<open>
  The message the validator of field \<open>k\<close>, if there is one, returns on \<open>vals\<close>
  (\<open>null\<close> when there is none).
\<close>

definition field_message :: "'v UseFormOptions \<Rightarrow> 'v obj \<Rightarrow> string \<Rightarrow> ValidatorResult" where
  "field_message options vals k =
     (case validator_for options k of None \<Rightarrow> None | Some validate \<Rightarrow> validate (map_of vals k) vals)"

subsection \<open>Sample forms\<close>

text \<open>
  The validator of the test suite, \<open>(value) => (value.length > 0 ? null : 'Required')\<close>,
  and one that answers with an empty message,
  \<open>(value) => (value.length > 0 ? null : '')\<close>; both are applied to string fields that
  exist.
\<close>

fun required :: "string validator" where
  "required (Some (c # cs)) vals = None"
| "required value vals = Some ''Required''"

fun blank :: "string validator" where
  "blank (Some (c # cs)) vals = None"
| "blank value vals = Some []"

definition signup :: "string UseFormOptions" where
  "signup = \<lparr>defaultValues = [(''username'', []), (''email'', ''a@b'')],
             validators = Some [''username'' \<mapsto> required]\<rparr>"

definition quiet :: "string UseFormOptions" where
  "quiet = \<lparr>defaultValues = [(''username'', [])],
            validators = Some [''username'' \<mapsto> blank]\<rparr>"

definition plain :: "string UseFormOptions" where
  "plain = \<lparr>defaultValues = [(''username'', ''john'')], validators = None\<rparr>"

definition stale :: "string form_state" where
  "stale = \<lparr>values_st = [(''username'', ''john''), (''email'', ''a@b'')],
            errors = [(''username'', ''Required''), (''email'', ''Invalid email'')],
            touched = [(''email'', True)]\<rparr>"

subsection \<open>Properties\<close>

lemma map_of_update_same: "map_of (AList.update k v al) k = Some v"
  by (simp add: update_conv')

lemma map_of_update_other: "k' \<noteq> k \<Longrightarrow> map_of (AList.update k v al) k' = map_of al k'"
  by (simp add: update_conv')

lemma map_of_delete_same: "map_of (AList.delete k al) k = None"
  by (simp add: delete_conv')

lemma keys_update: "keys (AList.update k v al) = insert k (keys al)"
  by (simp add: keys_def dom_update)

lemma keys_delete: "keys (AList.delete k al) = keys al - {k}"
  by (auto simp: keys_def AList.delete_eq)

lemma map_fst_update_known:
  "k \<in> keys al \<Longrightarrow> map fst (AList.update k v al) = map fst al"
  by (simp add: keys_def update_keys)

text \<open>
  C7. For distinct fields \<open>a\<close> and \<open>b\<close> of the field set and every value \<open>x\<close>,
  \<open>setValue(a, x)\<close> makes \<open>values[a]\<close> equal to \<open>x\<close> and changes nothing else:
  \<open>values[b]\<close> is what it was, the list of keys of \<open>values\<close> is what it was, and the
  \<open>errors\<close> and \<open>touched\<close> objects are the same objects as before (so no validation
  has run, and no field was marked touched).
\<close>

theorem setValue_frame:
  assumes "a \<in> keys (values_st st)" and "b \<in> keys (values_st st)" and "a \<noteq> b"
  shows "map_of (values_st (setValue a x st)) a = Some x
       \<and> map_of (values_st (setValue a x st)) b = map_of (values_st st) b
       \<and> map fst (values_st (setValue a x st)) = map fst (values_st st)
       \<and> errors (setValue a x st) = errors st
       \<and> touched (setValue a x st) = touched st"
  using assms
  by (simp add: setValue_def map_of_update_same map_of_update_other map_fst_update_known)

theorem setValue_frame_witness:
  "''username'' \<in> keys (values_st stale)
   \<and> ''email'' \<in> keys (values_st stale)
   \<and> setValue ''username'' ''jo'' stale
       = \<lparr>values_st = [(''username'', ''jo''), (''email'', ''a@b'')],
          errors = [(''username'', ''Required''), (''email'', ''Invalid email'')],
          touched = [(''email'', True)]\<rparr>"
proof -
  have a: "''username'' \<in> keys (values_st stale)"
    by (simp add: keys_def stale_def)
  have b: "''email'' \<in> keys (values_st stale)"
    by (simp add: keys_def stale_def)
  have c: "''username'' \<noteq> ''email''"
    by simp
  show ?thesis
    using a b setValue_frame [OF a b c, of "''jo''"]
    by (simp add: setValue_def stale_def)
qed

lemma delete_absent: "k \<notin> keys al \<Longrightarrow> AList.delete k al = al"
  by (simp add: keys_def)

lemma map_of_absent: "k \<notin> keys al \<Longrightarrow> map_of al k = None"
  by (simp add: keys_def map_of_eq_None_iff)

text \<open>
  C8. \<open>reset()\<close> sets \<open>values\<close> to the construction-time initial values, and
  \<open>reset(W)\<close> sets \<open>values\<close> to \<open>W\<close>; in both cases \<open>errors\<close> and \<open>touched\<close> become
  empty, whatever the state was.
\<close>

theorem reset_restores:
  "values_st (reset options None st) = values_st (init options)
   \<and> values_st (reset options None st) = defaultValues options
   \<and> values_st (reset options (Some W) st) = W
   \<and> errors (reset options nextValues st) = []
   \<and> touched (reset options nextValues st) = []"
  by (simp add: reset_def init_def)

theorem reset_restores_witness:
  "reset signup None stale = init signup
   \<and> reset signup (Some [(''username'', ''new''), (''email'', ''c@d'')]) stale
       = \<lparr>values_st = [(''username'', ''new''), (''email'', ''c@d'')], errors = [], touched = []\<rparr>"
  using reset_restores [of signup stale "[(''username'', ''new''), (''email'', ''c@d'')]" None]
  by (simp add: reset_def init_def stale_def)

text \<open>
  C9. When no validator is registered for \<open>name\<close> (there is no \<open>validators\<close> object, or
  it has no entry for \<open>name\<close>), \<open>validateField(name)\<close> returns \<open>true\<close> and \<open>errors\<close>
  afterwards has no entry for \<open>name\<close>: the entry is deleted when there was one, and the
  \<open>errors\<close> object is left as it was when there was none. The entries of the other
  fields, \<open>values\<close> and \<open>touched\<close> are as before. The field's current value plays no
  part.
\<close>

theorem validateField_no_validator:
  assumes "validator_for options name = None"
  shows "fst (validateField options vals name st)
       \<and> errors (snd (validateField options vals name st)) = AList.delete name (errors st)
       \<and> name \<notin> keys (errors (snd (validateField options vals name st)))
       \<and> map_of (errors (snd (validateField options vals name st))) name = None
       \<and> (name \<notin> keys (errors st) \<longrightarrow>
            errors (snd (validateField options vals name st)) = errors st)
       \<and> (\<forall>k. k \<noteq> name \<longrightarrow>
            map_of (errors (snd (validateField options vals name st))) k = map_of (errors st) k)
       \<and> values_st (snd (validateField options vals name st)) = values_st st
       \<and> touched (snd (validateField options vals name st)) = touched st"
  using assms
  by (simp add: validateField_def keys_delete map_of_delete_same delete_absent map_of_absent)

theorem validateField_no_validator_witness:
  "validator_for signup ''email'' = None
   \<and> fst (validateField signup (values_st stale) ''email'' stale)
   \<and> errors (snd (validateField signup (values_st stale) ''email'' stale))
       = [(''username'', ''Required'')]
   \<and> validator_for plain ''username'' = None
   \<and> fst (validateField plain (values_st stale) ''username'' stale)
   \<and> errors (snd (validateField plain (values_st stale) ''username'' stale))
       = [(''email'', ''Invalid email'')]"
proof -
  have a: "validator_for signup ''email'' = None"
    by (simp add: validator_for_def signup_def)
  have b: "validator_for plain ''username'' = None"
    by (simp add: validator_for_def plain_def)
  show ?thesis
    using a b
      validateField_no_validator [OF a, of "values_st stale" stale]
      validateField_no_validator [OF b, of "values_st stale" stale]
    by (simp add: stale_def)
qed

lemma truthy_Some: "truthy message \<Longrightarrow> Some (the message) = message"
  by (cases message) (simp_all add: truthy_def)

lemma truthy_simps: "\<not> truthy None" "truthy (Some m) = (m \<noteq> [])"
  by (simp_all add: truthy_def)

lemma validateField_values: "values_st (snd (validateField options vals name st)) = values_st st"
  by (simp add: validateField_def Let_def split: option.split)

lemma validateField_touched: "touched (snd (validateField options vals name st)) = touched st"
  by (simp add: validateField_def Let_def split: option.split)

lemma validateField_errors_only:
  "errors (snd (validateField options vals name (st\<lparr>touched := t\<rparr>)))
     = errors (snd (validateField options vals name st))"
  by (simp add: validateField_def Let_def split: option.split)

lemma validateField_touched_update:
  "touched (snd (validateField options vals name (st\<lparr>touched := t\<rparr>))) = t"
  by (simp add: validateField_def Let_def split: option.split)

lemma validateField_other_errors:
  "k \<noteq> name \<Longrightarrow>
     map_of (errors (snd (validateField options vals name st))) k = map_of (errors st) k"
  by (simp add: validateField_def Let_def map_of_update_other split: option.split)

text \<open>
  C3. The claim asks that a call of \<open>validateField(name)\<close> which returns \<open>false\<close>
  leaves the message of the validator in \<open>errors[name]\<close>. With the validator that
  answers an empty field with the empty string, on the form whose \<open>username\<close> is
  empty, the code returns \<open>false\<close>, the empty string not being \<open>null\<close>, and leaves
  \<open>errors\<close> without an entry for the field, the empty string being falsy: the field is
  reported invalid and no message is recorded for it.
\<close>

theorem validateField_empty_message_divergence:
  "validator_for quiet ''username'' = Some blank
   \<and> blank (map_of (values_st (init quiet)) ''username'') (values_st (init quiet)) = Some []
   \<and> \<not> fst (validateField quiet (values_st (init quiet)) ''username'' (init quiet))
   \<and> map_of (errors (snd (validateField quiet (values_st (init quiet)) ''username'' (init quiet))))
        ''username'' = None"
  by (simp add: validator_for_def quiet_def validateField_def init_def truthy_def)

text \<open>
  Away from the empty string the code does what is asked of it. For a field \<open>name\<close>
  with a registered validator whose result on the current values is \<open>null\<close> or a
  non-empty string, \<open>validateField(name)\<close> returns \<open>true\<close> exactly when the result is
  \<open>null\<close>; when it returns \<open>false\<close>, \<open>errors[name]\<close> afterwards is the message
  returned, and when it returns \<open>true\<close>, \<open>errors\<close> has no entry for \<open>name\<close>. The
  entries of the other fields, \<open>values\<close> and \<open>touched\<close> are unchanged.
\<close>

theorem validateField_with_message:
  assumes "validator_for options name = Some validate"
    and "message = validate (map_of (values_st st) name) (values_st st)"
    and "message \<noteq> Some []"
    and "r = validateField options (values_st st) name st"
  shows "fst r = (message = None)
       \<and> (\<not> fst r \<longrightarrow> map_of (errors (snd r)) name = message)
       \<and> (fst r \<longrightarrow> name \<notin> keys (errors (snd r)))
       \<and> (\<forall>k. k \<noteq> name \<longrightarrow> map_of (errors (snd r)) k = map_of (errors st) k)
       \<and> values_st (snd r) = values_st st
       \<and> touched (snd r) = touched st"
proof -
  have res: "fst r = (message = None)"
    using assms by (simp add: validateField_def Let_def)
  have sound: "truthy message = (message \<noteq> None)"
    using assms(3) by (cases message) (simp_all add: truthy_simps)
  have err: "errors (snd r) =
      (if truthy message then AList.update name (the message) (errors st)
       else AList.delete name (errors st))"
    using assms by (simp add: validateField_def Let_def)
  have stored: "\<not> fst r \<Longrightarrow> map_of (errors (snd r)) name = message"
    using res err sound by (simp add: map_of_update_same truthy_Some)
  have cleared: "fst r \<Longrightarrow> name \<notin> keys (errors (snd r))"
    using res err sound by (simp add: keys_delete)
  have others: "\<forall>k. k \<noteq> name \<longrightarrow> map_of (errors (snd r)) k = map_of (errors st) k"
    using assms(4) by (simp add: validateField_other_errors)
  show ?thesis
    using res stored cleared others assms(4)
    by (simp add: validateField_values validateField_touched)
qed

theorem validateField_with_message_witness:
  "validator_for signup ''username'' = Some required
   \<and> required (map_of (values_st (init signup)) ''username'') (values_st (init signup))
       = Some ''Required''
   \<and> validateField signup (values_st (init signup)) ''username'' (init signup)
       = (False, \<lparr>values_st = [(''username'', []), (''email'', ''a@b'')],
                  errors = [(''username'', ''Required'')], touched = []\<rparr>)"
proof -
  have a: "validator_for signup ''username'' = Some required"
    by (simp add: validator_for_def signup_def)
  have b: "required (map_of (values_st (init signup)) ''username'') (values_st (init signup))
             \<noteq> Some []"
    by (simp add: init_def signup_def)
  show ?thesis
    using a validateField_with_message [OF a refl b refl]
    by (simp add: validateField_def init_def signup_def truthy_def)
qed

text \<open>
  C6. The blur callback of \<open>register(name)\<close> is \<open>validateField(name)\<close> run on the state
  in which \<open>touched[name]\<close> has already been set to \<open>true\<close>. Afterwards \<open>touched\<close> is the
  previous object with \<open>name\<close> set to \<open>true\<close>, whatever the validation found and whether
  the field has a validator or not; \<open>errors\<close> is what \<open>validateField(name)\<close> alone
  computes, and \<open>values\<close> is unchanged.
\<close>

theorem onBlur_touches_then_validates:
  "onBlur (register options vals name) st
     = snd (validateField options vals name (st\<lparr>touched := AList.update name True (touched st)\<rparr>))
   \<and> touched (onBlur (register options vals name) st) = AList.update name True (touched st)
   \<and> map_of (touched (onBlur (register options vals name) st)) name = Some True
   \<and> errors (onBlur (register options vals name) st)
       = errors (snd (validateField options vals name st))
   \<and> values_st (onBlur (register options vals name) st) = values_st st"
  by (simp add: register_def validateField_values validateField_errors_only
      validateField_touched_update map_of_update_same)

theorem onBlur_touches_then_validates_witness:
  "onBlur (register signup (values_st (init signup)) ''username'') (init signup)
     = \<lparr>values_st = [(''username'', []), (''email'', ''a@b'')],
        errors = [(''username'', ''Required'')], touched = [(''username'', True)]\<rparr>
   \<and> onBlur (register signup (values_st (init signup)) ''email'') (init signup)
     = \<lparr>values_st = [(''username'', []), (''email'', ''a@b'')],
        errors = [], touched = [(''email'', True)]\<rparr>"
  using onBlur_touches_then_validates [of signup "values_st (init signup)" "''username''" "init signup"]
    onBlur_touches_then_validates [of signup "values_st (init signup)" "''email''" "init signup"]
  by (simp add: validateField_def validator_for_def init_def signup_def truthy_def keys_def)

lemma field_message_validators:
  "validators options = Some vs \<Longrightarrow>
     field_message options vals k
       = (case vs k of None \<Rightarrow> None | Some validate \<Rightarrow> validate (map_of vals k) vals)"
  by (simp add: field_message_def validator_for_def)

lemma field_message_no_validators:
  "validators options = None \<Longrightarrow> field_message options vals k = None"
  by (simp add: field_message_def validator_for_def)

lemma validateAll_loop_step:
  assumes "validators options = Some vs"
  shows "validateAll_loop vs vals (key # rest) (ok, ne) =
           (if truthy (field_message options vals key)
            then validateAll_loop vs vals rest
                   (False, AList.update key (the (field_message options vals key)) ne)
            else validateAll_loop vs vals rest (ok, ne))"
  using assms
  by (simp add: field_message_validators Let_def truthy_simps split: option.split)

lemma validateAll_loop_errors:
  assumes "validators options = Some vs"
  shows "map_of (snd (validateAll_loop vs vals ks (ok, ne))) k =
           (if k \<in> set ks \<and> truthy (field_message options vals k)
            then field_message options vals k else map_of ne k)"
proof (induction ks arbitrary: ok ne)
  case Nil
  show ?case by simp
next
  case (Cons key rest)
  show ?case
  proof (cases "truthy (field_message options vals key)")
    case True
    then show ?thesis
      using Cons.IH [of False "AList.update key (the (field_message options vals key)) ne"]
      by (cases "k = key")
        (auto simp add: validateAll_loop_step [OF assms] map_of_update_same
          map_of_update_other truthy_Some simp del: validateAll_loop.simps)
  next
    case False
    then show ?thesis
      using Cons.IH [of ok ne]
      by (auto simp add: validateAll_loop_step [OF assms] simp del: validateAll_loop.simps)
  qed
qed

lemma validateAll_loop_ok:
  assumes "validators options = Some vs"
  shows "fst (validateAll_loop vs vals ks (ok, ne)) =
           (ok \<and> (\<forall>k\<in>set ks. \<not> truthy (field_message options vals k)))"
proof (induction ks arbitrary: ok ne)
  case Nil
  show ?case by simp
next
  case (Cons key rest)
  show ?case
    using Cons.IH [of False "AList.update key (the (field_message options vals key)) ne"]
      Cons.IH [of ok ne]
    by (auto simp add: validateAll_loop_step [OF assms] simp del: validateAll_loop.simps)
qed

lemma validateAll_loop_keys:
  assumes "validators options = Some vs"
  shows "keys (snd (validateAll_loop vs vals ks (ok, ne))) =
           keys ne \<union> {k \<in> set ks. truthy (field_message options vals k)}"
proof (induction ks arbitrary: ok ne)
  case Nil
  show ?case by simp
next
  case (Cons key rest)
  show ?case
    using Cons.IH [of False "AList.update key (the (field_message options vals key)) ne"]
      Cons.IH [of ok ne]
    by (auto simp add: validateAll_loop_step [OF assms] keys_update
        simp del: validateAll_loop.simps)
qed

lemma set_map_fst: "set (map fst vals) = keys vals"
  by (simp add: keys_def)

lemma keys_Nil: "keys [] = {}"
  by (simp add: keys_def)

lemma validateAll_Some:
  "validators options = Some vs \<Longrightarrow>
     validateAll options vals st =
       (fst (validateAll_loop vs vals (map fst vals) (True, [])),
        st\<lparr>errors := snd (validateAll_loop vs vals (map fst vals) (True, []))\<rparr>)"
  by (simp add: validateAll_def split: prod.split)

lemma validateAll_errors:
  "map_of (errors (snd (validateAll options vals st))) k =
     (if k \<in> keys vals \<and> truthy (field_message options vals k)
      then field_message options vals k else None)"
proof (cases "validators options")
  case None
  then show ?thesis
    by (simp add: validateAll_def field_message_no_validators truthy_simps)
next
  case (Some vs)
  then show ?thesis
    using validateAll_loop_errors [OF Some, of vals "map fst vals" True "[]" k]
    by (simp add: validateAll_Some keys_def)
qed

lemma validateAll_keys:
  "keys (errors (snd (validateAll options vals st))) =
     {k \<in> keys vals. truthy (field_message options vals k)}"
proof (cases "validators options")
  case None
  then show ?thesis
    by (simp add: validateAll_def field_message_no_validators truthy_simps keys_Nil)
next
  case (Some vs)
  then show ?thesis
    using validateAll_loop_keys [OF Some, of vals "map fst vals" True "[]"]
    by (simp add: validateAll_Some keys_def)
qed

lemma validateAll_ok:
  "fst (validateAll options vals st) =
     (\<forall>k\<in>keys vals. \<not> truthy (field_message options vals k))"
proof (cases "validators options")
  case None
  then show ?thesis
    by (simp add: validateAll_def field_message_no_validators truthy_simps)
next
  case (Some vs)
  then show ?thesis
    using validateAll_loop_ok [OF Some, of vals "map fst vals" True "[]"]
    by (simp add: validateAll_Some keys_def)
qed

lemma validateAll_values: "values_st (snd (validateAll options vals st)) = values_st st"
  by (simp add: validateAll_def split: option.split prod.split)

lemma validateAll_touched: "touched (snd (validateAll options vals st)) = touched st"
  by (simp add: validateAll_def split: option.split prod.split)

lemma validateAll_replaces:
  "errors (snd (validateAll options vals (st\<lparr>errors := e\<rparr>)))
     = errors (snd (validateAll options vals st))"
  by (simp add: validateAll_def split: option.split prod.split)

text \<open>
  C2, as the code has it. After \<open>validateAll()\<close> the \<open>errors\<close> object has exactly the
  fields of \<open>values\<close> whose registered validator returned a non-empty message on the
  current values, each with that message; a field with no validator, or whose validator
  returned \<open>null\<close> or the empty string, is absent, whatever \<open>errors\<close> held before the
  call. \<open>validateAll()\<close> returns \<open>true\<close> exactly when no field's validator returned a
  non-empty message. \<open>values\<close> and \<open>touched\<close> are unchanged.
\<close>

theorem validateAll_recomputes:
  "(\<forall>k. map_of (errors (snd (validateAll options (values_st st) st))) k =
         (if k \<in> keys (values_st st) \<and> truthy (field_message options (values_st st) k)
          then field_message options (values_st st) k else None))
   \<and> keys (errors (snd (validateAll options (values_st st) st))) =
        {k \<in> keys (values_st st). truthy (field_message options (values_st st) k)}
   \<and> fst (validateAll options (values_st st) st) =
        (\<forall>k\<in>keys (values_st st). \<not> truthy (field_message options (values_st st) k))
   \<and> errors (snd (validateAll options (values_st st) (st\<lparr>errors := previous\<rparr>))) =
        errors (snd (validateAll options (values_st st) st))
   \<and> values_st (snd (validateAll options (values_st st) st)) = values_st st
   \<and> touched (snd (validateAll options (values_st st) st)) = touched st"
  by (simp add: validateAll_errors validateAll_keys validateAll_ok validateAll_replaces
      validateAll_values validateAll_touched)

theorem validateAll_recomputes_witness:
  "validateAll signup (values_st stale) stale = (True, stale\<lparr>errors := []\<rparr>)
   \<and> validateAll signup (values_st (init signup)) (init signup)
       = (False, (init signup)\<lparr>errors := [(''username'', ''Required'')]\<rparr>)
   \<and> field_message signup (values_st (init signup)) ''username'' = Some ''Required''
   \<and> field_message signup (values_st (init signup)) ''email'' = None"
  using validateAll_recomputes [of signup stale "[]"]
    validateAll_recomputes [of signup "init signup" "[]"]
  by (simp add: validateAll_def signup_def stale_def init_def truthy_def field_message_def
      validator_for_def)

text \<open>
  The claim C2 as it is written fails for a validator that returns the empty string,
  which is a message other than \<open>null\<close>: the field is absent from \<open>errors\<close> after
  \<open>validateAll()\<close>, and \<open>validateAll()\<close> returns \<open>true\<close>.
\<close>

theorem validateAll_empty_message_counterexample:
  "''username'' \<in> keys (values_st (init quiet))
   \<and> field_message quiet (values_st (init quiet)) ''username'' = Some []
   \<and> ''username'' \<notin> keys (errors (snd (validateAll quiet (values_st (init quiet)) (init quiet))))
   \<and> fst (validateAll quiet (values_st (init quiet)) (init quiet))"
  by (simp add: validateAll_def quiet_def init_def truthy_def field_message_def
      validator_for_def keys_def)

text \<open>
  C10. When the validator of \<open>name\<close> returns the empty string on the current values,
  \<open>validateField(name)\<close> returns \<open>false\<close> and leaves no entry for \<open>name\<close> in
  \<open>errors\<close>, while \<open>validateAll()\<close> takes the field for valid: it leaves no entry for
  \<open>name\<close> either, and its result is decided by the other fields alone, so it returns
  \<open>true\<close> when none of them has a non-empty message.
\<close>

theorem empty_message_disagreement:
  assumes "validator_for options name = Some validate"
    and "validate (map_of (values_st st) name) (values_st st) = Some []"
  shows "\<not> fst (validateField options (values_st st) name st)
       \<and> errors (snd (validateField options (values_st st) name st))
           = AList.delete name (errors st)
       \<and> name \<notin> keys (errors (snd (validateField options (values_st st) name st)))
       \<and> name \<notin> keys (errors (snd (validateAll options (values_st st) st)))
       \<and> fst (validateAll options (values_st st) st) =
           (\<forall>k\<in>keys (values_st st) - {name}.
              \<not> truthy (field_message options (values_st st) k))"
proof -
  have quiet: "\<not> truthy (field_message options (values_st st) name)"
    using assms by (simp add: field_message_def truthy_simps)
  have single: "\<not> fst (validateField options (values_st st) name st)
      \<and> errors (snd (validateField options (values_st st) name st))
          = AList.delete name (errors st)"
    using assms by (simp add: validateField_def Let_def truthy_simps)
  have gone: "name \<notin> keys (errors (snd (validateField options (values_st st) name st)))"
    using single by (simp add: keys_delete)
  have absent: "name \<notin> keys (errors (snd (validateAll options (values_st st) st)))"
    using quiet by (simp add: validateAll_keys)
  have rest: "fst (validateAll options (values_st st) st) =
      (\<forall>k\<in>keys (values_st st) - {name}. \<not> truthy (field_message options (values_st st) k))"
    using quiet by (auto simp: validateAll_ok)
  show ?thesis
    using single gone absent rest by simp
qed

theorem empty_message_disagreement_witness:
  "validator_for quiet ''username'' = Some blank
   \<and> blank (map_of (values_st (init quiet)) ''username'') (values_st (init quiet)) = Some []
   \<and> validateField quiet (values_st (init quiet)) ''username''
        ((init quiet)\<lparr>errors := [(''username'', ''Taken'')]\<rparr>)
       = (False, init quiet)
   \<and> validateAll quiet (values_st (init quiet))
        ((init quiet)\<lparr>errors := [(''username'', ''Taken'')]\<rparr>)
       = (True, init quiet)"
proof -
  have a: "validator_for quiet ''username'' = Some blank"
    by (simp add: validator_for_def quiet_def)
  have b: "blank (map_of (values_st ((init quiet)\<lparr>errors := [(''username'', ''Taken'')]\<rparr>))
              ''username'')
            (values_st ((init quiet)\<lparr>errors := [(''username'', ''Taken'')]\<rparr>)) = Some []"
    by (simp add: init_def quiet_def)
  show ?thesis
    using a empty_message_disagreement [OF a b]
    by (simp add: validateField_def validateAll_def init_def quiet_def truthy_def)
qed

lemma handleSubmit_unfold:
  "handleSubmit options vals onValid e (st, w) =
     (snd (validateAll options vals st),
      (if fst (validateAll options vals st)
       then onValid vals (case e of EventArg preventDefault \<Rightarrow> preventDefault w | _ \<Rightarrow> w)
       else (case e of EventArg preventDefault \<Rightarrow> preventDefault w | _ \<Rightarrow> w)))"
  by (simp add: handleSubmit_def Let_def split: prod.split)

text \<open>
  C1. The callback returned by \<open>handleSubmit(onValid)\<close> leaves the form in the state
  one run of \<open>validateAll\<close> produces, so \<open>errors\<close> afterwards is the object
  \<open>validateAll\<close> computed. When \<open>validateAll\<close> returns \<open>true\<close> the world outside is
  the one \<open>onValid\<close>, applied once to the current \<open>values\<close>, makes of it; when it returns
  \<open>false\<close> the world is as it was, \<open>onValid\<close> not having run. With an \<open>onValid\<close> that
  records its argument, the record after the call holds the current \<open>values\<close> once in
  the first case and nothing in the second. (Before validating, the callback calls
  \<open>preventDefault\<close> when its argument has one.)
\<close>

theorem handleSubmit_gates:
  "fst (handleSubmit options (values_st st) onValid e (st, w))
     = snd (validateAll options (values_st st) st)
   \<and> errors (fst (handleSubmit options (values_st st) onValid e (st, w)))
       = errors (snd (validateAll options (values_st st) st))
   \<and> (fst (validateAll options (values_st st) st) \<longrightarrow>
        snd (handleSubmit options (values_st st) onValid NoArg (st, w))
          = onValid (values_st st) w)
   \<and> (\<not> fst (validateAll options (values_st st) st) \<longrightarrow>
        snd (handleSubmit options (values_st st) onValid NoArg (st, w)) = w)
   \<and> snd (handleSubmit options (values_st st) onValid e (st, w))
       = (if fst (validateAll options (values_st st) st)
          then onValid (values_st st)
                 (case e of EventArg preventDefault \<Rightarrow> preventDefault w | _ \<Rightarrow> w)
          else (case e of EventArg preventDefault \<Rightarrow> preventDefault w | _ \<Rightarrow> w))
   \<and> snd (handleSubmit options (values_st st) (\<lambda>v calls. calls @ [v]) NoArg (st, []))
       = (if fst (validateAll options (values_st st) st) then [values_st st] else [])"
  by (simp add: handleSubmit_unfold)

theorem handleSubmit_gates_witness:
  "handleSubmit signup (values_st stale) (\<lambda>v calls. calls @ [v]) NoArg (stale, [])
     = (stale\<lparr>errors := []\<rparr>, [[(''username'', ''john''), (''email'', ''a@b'')]])
   \<and> handleSubmit signup (values_st (init signup)) (\<lambda>v calls. calls @ [v]) NoArg (init signup, [])
     = ((init signup)\<lparr>errors := [(''username'', ''Required'')]\<rparr>, [])"
  using handleSubmit_gates [of signup stale "\<lambda>v calls. calls @ [v]" NoArg "[]"]
    handleSubmit_gates [of signup "init signup" "\<lambda>v calls. calls @ [v]" NoArg "[]"]
  by (simp add: handleSubmit_def validateAll_def signup_def stale_def init_def truthy_def)

text \<open>
  C4. The object \<open>useForm\<close> returns has the nine properties \<open>values\<close>, \<open>errors\<close>,
  \<open>touched\<close>, \<open>register\<close>, \<open>setValue\<close>, \<open>validateField\<close>, \<open>validateAll\<close>,
  \<open>handleSubmit\<close> and \<open>reset\<close>, in every state: reading \<open>isSubmitting\<close> from it gives
  \<open>undefined\<close>, not \<open>false\<close>.
\<close>

theorem useForm_lacks_isSubmitting:
  "map_of (useForm st) ''isSubmitting'' = None
   \<and> map fst (useForm st) =
       [''values'', ''errors'', ''touched'', ''register'', ''setValue'', ''validateField'',
        ''validateAll'', ''handleSubmit'', ''reset'']"
  by (simp add: useForm_def)

lemma validateField_keys:
  "keys (errors (snd (validateField options vals name st))) \<subseteq>
     (if validator_for options name = None then keys (errors st)
      else insert name (keys (errors st)))"
proof (cases "validator_for options name")
  case None
  have "errors (snd (validateField options vals name st)) = AList.delete name (errors st)"
    using None by (simp add: validateField_def delete_absent)
  then show ?thesis
    using None by (simp add: keys_delete)
next
  case (Some validate)
  have "errors (snd (validateField options vals name st)) =
      (if truthy (validate (map_of vals name) vals)
       then AList.update name (the (validate (map_of vals name) vals)) (errors st)
       else AList.delete name (errors st))"
    using Some by (simp add: validateField_def Let_def)
  then have "keys (errors (snd (validateField options vals name st))) =
      (if truthy (validate (map_of vals name) vals)
       then insert name (keys (errors st)) else keys (errors st) - {name})"
    by (simp add: keys_update keys_delete)
  then show ?thesis
    using Some by auto
qed

lemma validateField_invariant:
  assumes "name \<in> field_names options"
    and "keys_invariant options st"
  shows "keys_invariant options (snd (validateField options vals name st))"
proof -
  have before: "keys (errors st) \<subseteq> field_names options"
    using assms(2) by (simp add: keys_invariant_def)
  have "keys (errors (snd (validateField options vals name st)))
          \<subseteq> insert name (keys (errors st))"
    using validateField_keys [of options vals name st]
    by (cases "validator_for options name = None") auto
  moreover have "insert name (keys (errors st)) \<subseteq> field_names options"
    using assms(1) before by simp
  ultimately have "keys (errors (snd (validateField options vals name st)))
      \<subseteq> field_names options"
    by (rule subset_trans)
  moreover have "keys (values_st st) = field_names options"
    using assms(2) by (simp add: keys_invariant_def)
  moreover have "keys (touched st) \<subseteq> field_names options"
    using assms(2) by (simp add: keys_invariant_def)
  ultimately show ?thesis
    by (simp add: keys_invariant_def validateField_values validateField_touched)
qed

lemma validateAll_invariant:
  assumes "keys_invariant options st"
  shows "keys_invariant options (snd (validateAll options (values_st st) st))"
  using assms
  by (auto simp: keys_invariant_def validateAll_keys validateAll_values validateAll_touched)

lemma setValue_invariant:
  assumes "name \<in> field_names options" and "keys_invariant options st"
  shows "keys_invariant options (setValue name v st)"
  using assms
  by (auto simp: keys_invariant_def setValue_def keys_update)

lemma touch_invariant:
  assumes "name \<in> field_names options" and "keys_invariant options st"
  shows "keys_invariant options (st\<lparr>touched := AList.update name True (touched st)\<rparr>)"
  using assms
  by (auto simp: keys_invariant_def keys_update)

lemma reset_invariant:
  assumes "well_typed options (Reset nextValues)"
  shows "keys_invariant options (reset options nextValues st)"
  using assms
  by (simp add: keys_invariant_def reset_def field_names_def keys_Nil split: option.splits)

lemma step_invariant:
  assumes op: "well_typed options op"
    and inv: "keys_invariant options st"
  shows "keys_invariant options (step options op st)"
proof (cases op)
  case (SetValue name v)
  then have "name \<in> field_names options"
    using op by simp
  then show ?thesis
    using SetValue setValue_invariant [OF _ inv] by simp
next
  case (ValidateField name)
  then have "name \<in> field_names options"
    using op by simp
  then show ?thesis
    using ValidateField validateField_invariant [OF _ inv] by simp
next
  case ValidateAll
  then show ?thesis
    using validateAll_invariant [OF inv] by simp
next
  case (Change name v)
  then have "name \<in> field_names options"
    using op by simp
  then show ?thesis
    using Change setValue_invariant [OF _ inv] by (simp add: register_def)
next
  case (Blur name)
  then have known: "name \<in> field_names options"
    using op by simp
  then have "keys_invariant options (st\<lparr>touched := AList.update name True (touched st)\<rparr>)"
    using inv by (rule touch_invariant)
  then show ?thesis
    using Blur validateField_invariant [OF known] by (simp add: register_def)
next
  case Submit
  then show ?thesis
    using validateAll_invariant [OF inv] by (simp add: handleSubmit_unfold)
next
  case (Reset nextValues)
  then have "well_typed options (Reset nextValues)"
    using op by simp
  then show ?thesis
    using Reset reset_invariant [of options nextValues st] by simp
qed

lemma run_invariant:
  "list_all (well_typed options) ops \<Longrightarrow> keys_invariant options st
     \<Longrightarrow> keys_invariant options (run options ops st)"
proof (induction ops arbitrary: st)
  case Nil
  then show ?case by simp
next
  case (Cons op ops)
  have "keys_invariant options (step options op st)"
    using Cons.prems step_invariant [of options op st] by simp
  then show ?case
    using Cons.IH [of "step options op st"] Cons.prems(1) by simp
qed

lemma init_invariant: "keys_invariant options (init options)"
  by (simp add: keys_invariant_def init_def field_names_def keys_Nil)

text \<open>
  C5, as the code has it. After every sequence of operations in which each name given
  to \<open>setValue\<close>, to \<open>validateField\<close>, to a change callback or to a blur callback is a
  field name, and each argument given to \<open>reset\<close> has exactly the field names as its
  keys, the key set of \<open>values\<close> is the set of field names supplied at construction
  and the key sets of \<open>errors\<close> and \<open>touched\<close> are subsets of it. The source rules
  other calls out by its types (\<open>K extends keyof TValues\<close>, \<open>nextValues?: TValues\<close>)
  and does not check them when it runs.
\<close>

theorem field_names_fixed:
  assumes "list_all (well_typed options) ops"
  shows "keys_invariant options (run options ops (init options))"
  using run_invariant [OF assms init_invariant] .

theorem field_names_fixed_witness:
  "list_all (well_typed signup)
     [Change ''username'' ''john'', Blur ''username'', ValidateField ''email'',
      SetValue ''username'' [], ValidateAll, Submit, Blur ''email'',
      Reset (Some [(''email'', ''c@d''), (''username'', ''eve'')]), ValidateField ''username'',
      Reset None, ValidateField ''username'']
   \<and> keys_invariant signup
       (run signup
          [Change ''username'' ''john'', Blur ''username'', ValidateField ''email'',
           SetValue ''username'' [], ValidateAll, Submit, Blur ''email'',
           Reset (Some [(''email'', ''c@d''), (''username'', ''eve'')]), ValidateField ''username'',
           Reset None, ValidateField ''username'']
          (init signup))
   \<and> run signup
        [Change ''username'' ''john'', Blur ''username'', ValidateField ''email'',
         SetValue ''username'' [], ValidateAll, Submit, Blur ''email'']
        (init signup)
       = \<lparr>values_st = [(''username'', []), (''email'', ''a@b'')],
          errors = [(''username'', ''Required'')],
          touched = [(''username'', True), (''email'', True)]\<rparr>"
proof -
  have names: "field_names signup = {''username'', ''email''}"
    by (simp add: field_names_def keys_def signup_def)
  have ops: "list_all (well_typed signup)
     [Change ''username'' ''john'', Blur ''username'', ValidateField ''email'',
      SetValue ''username'' [], ValidateAll, Submit, Blur ''email'',
      Reset (Some [(''email'', ''c@d''), (''username'', ''eve'')]), ValidateField ''username'',
      Reset None, ValidateField ''username'']"
    by (simp add: names) (auto simp: keys_def)
  have trace: "run signup
        [Change ''username'' ''john'', Blur ''username'', ValidateField ''email'',
         SetValue ''username'' [], ValidateAll, Submit, Blur ''email'']
        (init signup)
       = \<lparr>values_st = [(''username'', []), (''email'', ''a@b'')],
          errors = [(''username'', ''Required'')],
          touched = [(''username'', True), (''email'', True)]\<rparr>"
    by code_simp
  show ?thesis
    by (rule conjI [OF ops conjI [OF field_names_fixed [OF ops] trace]])
qed

text \<open>
  The claim C5 as it is written fails for \<open>setValue\<close> with a name outside the field
  set: the spread \<open>{...prev, [name]: value}\<close> adds the name to \<open>values\<close>.
\<close>

theorem setValue_unknown_name_counterexample:
  "keys_invariant plain (init plain)
   \<and> ''nickname'' \<notin> field_names plain
   \<and> run plain [SetValue ''nickname'' ''jo''] (init plain)
       = \<lparr>values_st = [(''username'', ''john''), (''nickname'', ''jo'')],
          errors = [], touched = []\<rparr>
   \<and> \<not> keys_invariant plain (run plain [SetValue ''nickname'' ''jo''] (init plain))"
proof -
  have names: "field_names plain = {''username''}"
    by (simp add: field_names_def keys_def plain_def)
  have after: "run plain [SetValue ''nickname'' ''jo''] (init plain)
       = \<lparr>values_st = [(''username'', ''john''), (''nickname'', ''jo'')],
          errors = [], touched = []\<rparr>"
    by (simp add: init_def plain_def setValue_def)
  have grown: "''nickname'' \<in> keys (values_st (run plain [SetValue ''nickname'' ''jo''] (init plain)))"
    unfolding after by (simp add: keys_def)
  have unknown: "''nickname'' \<notin> field_names plain"
    unfolding names by simp
  have broken: "\<not> keys_invariant plain (run plain [SetValue ''nickname'' ''jo''] (init plain))"
    using grown unknown unfolding keys_invariant_def by blast
  show ?thesis
    by (rule conjI [OF init_invariant conjI [OF unknown conjI [OF after broken]]])
qed

end
